theory Spec2Isabelle
  imports Complex_Main "HOL-Library.Sublist" "HOL-Library.Log_Nat"
begin

section \<open>Python strings\<close>

text \<open>
  Strings are lists of characters. The scorers of \<^verbatim>\<open>api_model_evaluator.py\<close> use
  \<^verbatim>\<open>str.lower\<close>, the substring test \<^verbatim>\<open>in\<close>, \<^verbatim>\<open>str.find\<close>, slicing, \<^verbatim>\<open>str.split\<close>
  with a one-character separator, \<^verbatim>\<open>str.strip\<close> and \<^verbatim>\<open>str\<close> of an integer. A
  character is a code point below 256. On these \<^verbatim>\<open>str.lower\<close> adds 32 to the code points
  65 to 90 and 192 to 222 but 215, and leaves every other one alone; \<^verbatim>\<open>str.strip\<close>
  removes the code points 9 to 13, 28 to 32, 133 and 160 from both ends.
\<close>

definition py_lower_char :: "char \<Rightarrow> char" where
  "py_lower_char c =
     (let n = (of_char c :: nat)
      in if (65 \<le> n \<and> n \<le> 90) \<or> (192 \<le> n \<and> n \<le> 222 \<and> n \<noteq> 215)
         then char_of (n + 32) else c)"

definition py_lower :: "string \<Rightarrow> string" where
  "py_lower s = map py_lower_char s"

text \<open>\<^verbatim>\<open>p in s\<close>: the string \<open>p\<close> occurs in \<open>s\<close> as a contiguous block.\<close>

fun py_in :: "string \<Rightarrow> string \<Rightarrow> bool" where
  "py_in p [] = (p = [])"
| "py_in p (c # cs) = (prefix p (c # cs) \<or> py_in p cs)"

text \<open>\<^verbatim>\<open>s.find(p)\<close>: the lowest index at which \<open>p\<close> occurs in \<open>s\<close>, or \<open>-1\<close>.\<close>

fun find_from :: "string \<Rightarrow> string \<Rightarrow> int \<Rightarrow> int" where
  "find_from p [] i = (if p = [] then i else - 1)"
| "find_from p (c # cs) i = (if prefix p (c # cs) then i else find_from p cs (i + 1))"

definition py_find :: "string \<Rightarrow> string \<Rightarrow> int" where
  "py_find s p = find_from p s 0"

text \<open>
  \<^verbatim>\<open>s[a:b]\<close>: a negative bound counts from the end, and both bounds are clamped to
  \<open>0..len(s)\<close>; the slice is empty when the upper bound does not exceed the lower one.
\<close>

definition slice_index :: "nat \<Rightarrow> int \<Rightarrow> nat" where
  "slice_index n i = (if i < 0 then nat (max 0 (int n + i)) else min n (nat i))"

definition py_slice :: "string \<Rightarrow> int \<Rightarrow> int \<Rightarrow> string" where
  "py_slice s a b =
     (let lo = slice_index (length s) a; hi = slice_index (length s) b
      in take (hi - lo) (drop lo s))"

text \<open>\<^verbatim>\<open>s.split(sep)\<close> for a one-character separator: \<open>n\<close> separators give \<open>n + 1\<close> pieces.\<close>

fun py_split :: "char \<Rightarrow> string \<Rightarrow> string list" where
  "py_split sep [] = [[]]"
| "py_split sep (c # cs) =
     (if c = sep then [] # py_split sep cs
      else (case py_split sep cs of
              [] \<Rightarrow> [[c]]
            | w # ws \<Rightarrow> (c # w) # ws))"

definition is_space :: "char \<Rightarrow> bool" where
  "is_space c =
     (let n = (of_char c :: nat)
      in (9 \<le> n \<and> n \<le> 13) \<or> (28 \<le> n \<and> n \<le> 32) \<or> n = 133 \<or> n = 160)"

definition py_strip :: "string \<Rightarrow> string" where
  "py_strip s = rev (dropWhile is_space (rev (dropWhile is_space s)))"

text \<open>\<^verbatim>\<open>str(n)\<close> for an integer: decimal digits, with a minus sign for a negative one.\<close>

fun str_nat :: "nat \<Rightarrow> string" where
  "str_nat n =
     (if n < 10 then [char_of (48 + n)]
      else str_nat (n div 10) @ [char_of (48 + n mod 10)])"

definition str_int :: "int \<Rightarrow> string" where
  "str_int i = (if i < 0 then CHR ''-'' # str_nat (nat (- i)) else str_nat (nat i))"

section \<open>Python floats\<close>

text \<open>
  A Python float is an IEEE 754 binary64 number. A finite one is a rational, and each
  arithmetic operation returns the exact result rounded to 53 significant bits, ties to
  the even significand. \<open>rd\<close> is that rounding on the rationals. The exponent range is
  not modelled (no overflow, no subnormal numbers): the numbers of this program are
  quotients and differences of small counts. Python's \<^verbatim>\<open>int / int\<close> is the correctly
  rounded quotient as well, and a comparison between an \<^verbatim>\<open>int\<close> and a \<^verbatim>\<open>float\<close> compares
  the exact values.
\<close>

definition binary_exponent :: "rat \<Rightarrow> int" where
  "binary_exponent x =
     (let (p, q) = quotient_of x; k = bitlen p - bitlen q
      in if 2 powi k \<le> x then k else k - 1)"

definition round_half_even :: "rat \<Rightarrow> int" where
  "round_half_even y =
     (let f = \<lfloor>y\<rfloor>; r = y - of_int f
      in if r < 1 / 2 then f
         else if 1 / 2 < r then f + 1
         else if even f then f else f + 1)"

definition rd :: "rat \<Rightarrow> rat" where
  "rd x =
     (if x = 0 then 0
      else let a = \<bar>x\<bar>; u = 2 powi (binary_exponent a - 52)
           in sgn x * (of_int (round_half_even (a / u)) * u))"

definition fsub :: "rat \<Rightarrow> rat \<Rightarrow> rat" where
  "fsub a b = rd (a - b)"

definition fdiv :: "rat \<Rightarrow> rat \<Rightarrow> rat" where
  "fdiv a b = rd (a / b)"

definition fmul :: "rat \<Rightarrow> rat \<Rightarrow> rat" where
  "fmul a b = rd (a * b)"

text \<open>The float literals of the source: the doubles nearest to the decimal fractions.\<close>

definition lit_0_8 :: rat where "lit_0_8 = rd (8 / 10)"
definition lit_0_2 :: rat where "lit_0_2 = rd (2 / 10)"
definition lit_0_5 :: rat where "lit_0_5 = rd (5 / 10)"

section \<open>The logic-puzzle scorer\<close>

text \<open>
  \<^verbatim>\<open>LargeModelEvaluator._check_logic_answer(response, expected)\<close>. The first loop runs
  over the six known names and appends at most one pair per name; the window of a name
  starts at the first character of its first occurrence. The second loop counts the
  pairs whose name and role both occur in the lowercased response. The list
  \<^verbatim>\<open>roles\<close> of the source is never read.
\<close>

definition names :: "string list" where
  "names = [''zoey'', ''oliver'', ''william'', ''evelyn'', ''xiomara'', ''zephyrus'']"

definition name_window :: "string \<Rightarrow> string \<Rightarrow> string" where
  "name_window expected_lower name =
     py_slice expected_lower (py_find expected_lower name) (py_find expected_lower name + 50)"

fun extract_pairs :: "string \<Rightarrow> string list \<Rightarrow> (string \<times> string) list \<Rightarrow> (string \<times> string) list" where
  "extract_pairs expected_lower [] expected_pairs = expected_pairs"
| "extract_pairs expected_lower (name # rest) expected_pairs =
     (if py_in name expected_lower then
        (if py_in ''knight'' (name_window expected_lower name)
         then extract_pairs expected_lower rest (expected_pairs @ [(name, ''knight'')])
         else if py_in ''knave'' (name_window expected_lower name)
         then extract_pairs expected_lower rest (expected_pairs @ [(name, ''knave'')])
         else extract_pairs expected_lower rest expected_pairs)
      else extract_pairs expected_lower rest expected_pairs)"

definition expected_pairs_of :: "string \<Rightarrow> (string \<times> string) list" where
  "expected_pairs_of expected = extract_pairs (py_lower expected) names []"

fun count_matches :: "string \<Rightarrow> (string \<times> string) list \<Rightarrow> nat \<Rightarrow> nat" where
  "count_matches response_lower [] correct_matches = correct_matches"
| "count_matches response_lower ((name, role) # rest) correct_matches =
     (if py_in name response_lower \<and> py_in role response_lower
      then count_matches response_lower rest (correct_matches + 1)
      else count_matches response_lower rest correct_matches)"

definition check_logic_answer :: "string \<Rightarrow> string \<Rightarrow> bool" where
  "check_logic_answer response expected =
     (let response_lower = py_lower response;
          expected_pairs = expected_pairs_of expected;
          correct_matches = count_matches response_lower expected_pairs 0
      in fmul (of_nat (length expected_pairs)) lit_0_8 \<le> of_nat correct_matches)"

text \<open>
  The scorer as the specification words it: the window of a name is the 50 characters
  from the name's first occurrence on, a pair is extracted for a name that has a role
  keyword in its window, a pair is satisfied when its name and its role both occur in
  the response, and the answer is correct when the satisfied pairs are at least 0.8
  times the extracted ones.
\<close>

fun from_first :: "string \<Rightarrow> string \<Rightarrow> string" where
  "from_first p [] = []"
| "from_first p (c # cs) = (if prefix p (c # cs) then c # cs else from_first p cs)"

definition spec_window :: "string \<Rightarrow> string \<Rightarrow> string" where
  "spec_window s name = take 50 (from_first name s)"

definition spec_role :: "string \<Rightarrow> string option" where
  "spec_role w =
     (if sublist ''knight'' w then Some ''knight''
      else if sublist ''knave'' w then Some ''knave''
      else None)"

definition spec_pair :: "string \<Rightarrow> string \<Rightarrow> (string \<times> string) option" where
  "spec_pair s name =
     (if sublist name s then map_option (Pair name) (spec_role (spec_window s name))
      else None)"

definition spec_pairs :: "string \<Rightarrow> (string \<times> string) list" where
  "spec_pairs expected = List.map_filter (spec_pair (py_lower expected)) names"

definition spec_satisfied :: "string \<Rightarrow> string \<times> string \<Rightarrow> bool" where
  "spec_satisfied response pair =
     (sublist (fst pair) (py_lower response) \<and> sublist (snd pair) (py_lower response))"

definition spec_logic_correct :: "string \<Rightarrow> string \<Rightarrow> bool" where
  "spec_logic_correct response expected =
     (let pairs = spec_pairs expected
      in (8 / 10) * rat_of_nat (length pairs)
           \<le> rat_of_nat (length (filter (spec_satisfied response) pairs)))"

text \<open>The expected answer and the two responses of the specification's example.\<close>

definition zoey_expected :: string where
  "zoey_expected = ''Zoey is a knave, Oliver is a knight''"

definition full_answer :: string where
  "full_answer = ''(1) Zoey is a knave'' @ [CHR 0x0A] @ ''(2) Oliver is a knight''"

definition partial_answer :: string where
  "partial_answer = ''Zoey is a knave''"

section \<open>Model clients\<close>

text \<open>
  A raised exception is the left summand of the result. \<^verbatim>\<open>except Exception\<close> catches
  every exception of the model (\<^verbatim>\<open>KeyboardInterrupt\<close> and \<^verbatim>\<open>SystemExit\<close>, which it does not
  catch, are no failures of the transport or of the backend).
\<close>

datatype py_exception =
    RequestException string
  | JSONDecodeError string
  | KeyError string
  | IndexError string
  | TypeError string
  | AttributeError string
  | RuntimeError string

text \<open>\<^verbatim>\<open>str(e)\<close>: the message of the exception; a \<^verbatim>\<open>KeyError\<close> carries the \<^verbatim>\<open>repr\<close> of
  the key.\<close>

fun exception_text :: "py_exception \<Rightarrow> string" where
  "exception_text (RequestException m) = m"
| "exception_text (JSONDecodeError m) = m"
| "exception_text (KeyError k) = k"
| "exception_text (IndexError m) = m"
| "exception_text (TypeError m) = m"
| "exception_text (AttributeError m) = m"
| "exception_text (RuntimeError m) = m"

definition try_except ::
  "py_exception + 'a \<Rightarrow> (py_exception \<Rightarrow> py_exception + 'a) \<Rightarrow> py_exception + 'a" where
  "try_except body handler = (case body of Inl e \<Rightarrow> handler e | Inr v \<Rightarrow> Inr v)"

definition and_then ::
  "py_exception + 'a \<Rightarrow> ('a \<Rightarrow> py_exception + 'b) \<Rightarrow> py_exception + 'b" where
  "and_then m f = (case m of Inl e \<Rightarrow> Inl e | Inr v \<Rightarrow> f v)"

text \<open>
  A decoded JSON body; an object is the list of its keys and values, each key once.
  \<^verbatim>\<open>value[key]\<close> for a string key, \<^verbatim>\<open>value[0]\<close>, \<^verbatim>\<open>value.strip()\<close> and
  \<^verbatim>\<open>value.get(key, default)\<close> raise on a value of the wrong type, with the messages of
  CPython 3.11.
\<close>

datatype json =
    JNull
  | JBool bool
  | JInt int
  | JFloat rat
  | JString string
  | JArray "json list"
  | JObject "(string \<times> json) list"

fun type_name :: "json \<Rightarrow> string" where
  "type_name JNull = ''NoneType''"
| "type_name (JBool b) = ''bool''"
| "type_name (JInt i) = ''int''"
| "type_name (JFloat x) = ''float''"
| "type_name (JString s) = ''str''"
| "type_name (JArray xs) = ''list''"
| "type_name (JObject kvs) = ''dict''"

definition quoted :: "string \<Rightarrow> string" where
  "quoted s = [CHR 0x27] @ s @ [CHR 0x27]"

definition not_subscriptable :: "json \<Rightarrow> py_exception" where
  "not_subscriptable v = TypeError (quoted (type_name v) @ '' object is not subscriptable'')"

definition no_attribute :: "json \<Rightarrow> string \<Rightarrow> py_exception" where
  "no_attribute v a =
     AttributeError (quoted (type_name v) @ '' object has no attribute '' @ quoted a)"

fun subscript_key :: "json \<Rightarrow> string \<Rightarrow> py_exception + json" where
  "subscript_key (JObject kvs) k =
     (case map_of kvs k of None \<Rightarrow> Inl (KeyError (quoted k)) | Some v \<Rightarrow> Inr v)"
| "subscript_key (JArray xs) k =
     Inl (TypeError ''list indices must be integers or slices, not str'')"
| "subscript_key (JString s) k =
     Inl (TypeError (''string indices must be integers, not '' @ quoted ''str''))"
| "subscript_key v k = Inl (not_subscriptable v)"

fun subscript_zero :: "json \<Rightarrow> py_exception + json" where
  "subscript_zero (JArray []) = Inl (IndexError ''list index out of range'')"
| "subscript_zero (JArray (x # xs)) = Inr x"
| "subscript_zero (JString []) = Inl (IndexError ''string index out of range'')"
| "subscript_zero (JString (c # cs)) = Inr (JString [c])"
| "subscript_zero (JObject kvs) = Inl (KeyError ''0'')"
| "subscript_zero v = Inl (not_subscriptable v)"

fun json_strip :: "json \<Rightarrow> py_exception + string" where
  "json_strip (JString s) = Inr (py_strip s)"
| "json_strip v = Inl (no_attribute v ''strip'')"

fun json_get :: "json \<Rightarrow> string \<Rightarrow> json \<Rightarrow> py_exception + json" where
  "json_get (JObject kvs) k d = (case map_of kvs k of None \<Rightarrow> Inr d | Some v \<Rightarrow> Inr v)"
| "json_get v k d = Inl (no_attribute v ''get'')"

text \<open>
  What \<^verbatim>\<open>requests.post\<close> hands back: it raises (timeout, refused connection), or it returns
  a response with a status code whose \<^verbatim>\<open>json()\<close> raises or decodes the body. The
  transport \<open>post\<close> gives that outcome for the prompt sent.
\<close>

record http_response =
  status_code :: int
  json_body :: "py_exception + json"

text \<open>\<^verbatim>\<open>OpenAIModel.query(prompt)\<close>\<close>

definition openai_query ::
  "(string \<Rightarrow> py_exception + http_response) \<Rightarrow> string \<Rightarrow> py_exception + string" where
  "openai_query post prompt =
     try_except
       (and_then (post prompt) (\<lambda>response.
          if status_code response = 200 then
            and_then (json_body response) (\<lambda>result.
            and_then (subscript_key result ''choices'') (\<lambda>choices.
            and_then (subscript_zero choices) (\<lambda>choice.
            and_then (subscript_key choice ''message'') (\<lambda>message.
            and_then (subscript_key message ''content'') json_strip))))
          else Inr (''API Error: '' @ str_int (status_code response))))
       (\<lambda>e. Inr (''Request Error: '' @ exception_text e))"

text \<open>\<^verbatim>\<open>OllamaModel.query(prompt)\<close>\<close>

definition ollama_query ::
  "(string \<Rightarrow> py_exception + http_response) \<Rightarrow> string \<Rightarrow> py_exception + string" where
  "ollama_query post prompt =
     try_except
       (and_then (post prompt) (\<lambda>response.
          if status_code response = 200 then
            and_then (json_body response) (\<lambda>result.
            and_then (json_get result ''response'' (JString [])) json_strip)
          else Inr (''Ollama Error: '' @ str_int (status_code response))))
       (\<lambda>e. Inr (''Ollama Connection Error: '' @ exception_text e))"

text \<open>
  \<^verbatim>\<open>LocalLLM.generate\<close>: the prompt is one string or a list of strings, and the result has
  the same shape. \<open>pipeline\<close> stands for tokenising, generating and decoding, which raise
  or return the decoded texts.
\<close>

datatype text_or_batch = Single string | Batch "string list"

definition local_generate ::
  "(string list \<Rightarrow> py_exception + string list) \<Rightarrow> text_or_batch \<Rightarrow> py_exception + text_or_batch" where
  "local_generate pipeline prompt =
     (let is_batch = (case prompt of Single p \<Rightarrow> False | Batch ps \<Rightarrow> True);
          prompts = (case prompt of Single p \<Rightarrow> [p] | Batch ps \<Rightarrow> ps)
      in try_except
           (and_then (pipeline prompts) (\<lambda>generated_texts.
              if is_batch then Inr (Batch generated_texts)
              else (case generated_texts of
                      [] \<Rightarrow> Inl (IndexError ''list index out of range'')
                    | t # ts \<Rightarrow> Inr (Single t))))
           (\<lambda>e. Inr (if \<not> is_batch then Single [] else Batch (replicate (length prompts) []))))"

text \<open>The shape \<open><Kind> Error: <detail>\<close> of a sentinel string.\<close>

definition sentinel_form :: "string \<Rightarrow> bool" where
  "sentinel_form s = py_in '' Error: '' s"

section \<open>The arithmetic scorer and the accuracy of a group\<close>

text \<open>
  The evaluator asks the model through \<^verbatim>\<open>self.model.query\<close>. The evaluation loops take
  the model as a function from the prompt and the state of the backend to the response
  and the new state.
\<close>

type_synonym 's model_query = "string \<Rightarrow> 's \<Rightarrow> string \<times> 's"

datatype answer_value = IntAnswer int | StrAnswer string

fun py_str :: "answer_value \<Rightarrow> string" where
  "py_str (IntAnswer i) = str_int i"
| "py_str (StrAnswer s) = s"

record arith_problem =
  problem :: string
  answer :: answer_value

definition arithmetic_prompt :: "string \<Rightarrow> string" where
  "arithmetic_prompt p =
     ''Solve this arithmetic problem step by step:'' @ [CHR 0x0A, CHR 0x0A] @ p
       @ [CHR 0x0A, CHR 0x0A] @ ''Show your work and provide the final answer:''"

definition answer_found :: "answer_value \<Rightarrow> string \<Rightarrow> bool" where
  "answer_found a response = py_in (py_lower (py_str a)) (py_lower response)"

fun problems_loop :: "'s model_query \<Rightarrow> arith_problem list \<Rightarrow> nat \<Rightarrow> 's \<Rightarrow> nat \<times> 's" where
  "problems_loop query [] n_correct st = (n_correct, st)"
| "problems_loop query (p # rest) n_correct st =
     (let (response, st') = query (arithmetic_prompt (problem p)) st
      in if answer_found (answer p) response
         then problems_loop query rest (n_correct + 1) st'
         else problems_loop query rest n_correct st')"

definition evaluate_problems ::
  "'s model_query \<Rightarrow> arith_problem list \<Rightarrow> 's \<Rightarrow> (nat \<times> nat \<times> rat) \<times> 's" where
  "evaluate_problems query problems st =
     (let (n_correct, st') = problems_loop query problems 0 st;
          n_total = length problems
      in ((n_correct, n_total,
           if n_total > 0 then fdiv (of_nat n_correct) (of_nat n_total) else 0), st'))"

text \<open>The responses the model gives along a run over the problems, in order.\<close>

fun responses_of :: "'s model_query \<Rightarrow> arith_problem list \<Rightarrow> 's \<Rightarrow> string list" where
  "responses_of query [] st = []"
| "responses_of query (p # rest) st =
     (let (response, st') = query (arithmetic_prompt (problem p)) st
      in response # responses_of query rest st')"

text \<open>One perturbation type of \<^verbatim>\<open>evaluate_knights_knaves_with_large_model\<close>.\<close>

record kk_case =
  quiz :: string
  expected :: string

record group_result =
  accuracy :: rat
  correct :: nat
  total :: nat

definition logic_prompt :: "string \<Rightarrow> string" where
  "logic_prompt q =
     ''Solve this logic puzzle step by step:'' @ [CHR 0x0A, CHR 0x0A] @ q
       @ [CHR 0x0A, CHR 0x0A] @ ''Provide your reasoning and final answer:''"

fun cases_loop :: "'s model_query \<Rightarrow> kk_case list \<Rightarrow> nat \<Rightarrow> 's \<Rightarrow> nat \<times> 's" where
  "cases_loop query [] n_correct st = (n_correct, st)"
| "cases_loop query (c # rest) n_correct st =
     (let (response, st') = query (logic_prompt (quiz c)) st;
          is_correct = check_logic_answer response (expected c)
      in if is_correct then cases_loop query rest (n_correct + 1) st'
         else cases_loop query rest n_correct st')"

definition evaluate_group :: "'s model_query \<Rightarrow> kk_case list \<Rightarrow> 's \<Rightarrow> group_result \<times> 's" where
  "evaluate_group query cases st =
     (let (n_correct, st') = cases_loop query cases 0 st;
          n_total = length cases
      in (\<lparr>accuracy = (if n_total > 0 then fdiv (of_nat n_correct) (of_nat n_total) else 0),
           correct = n_correct, total = n_total\<rparr>, st'))"

section \<open>Perturbation drop\<close>

text \<open>
  The drop of a variant against the clean baseline, in
  \<^verbatim>\<open>evaluate_knights_knaves_with_large_model\<close> and \<^verbatim>\<open>generate_large_model_report\<close>, and the
  warning the former prints for a drop above \<^verbatim>\<open>0.2\<close>.
\<close>

definition perturbation_drop :: "rat \<Rightarrow> rat \<Rightarrow> rat" where
  "perturbation_drop baseline acc =
     (if baseline > 0 then fdiv (fsub baseline acc) baseline else 0)"

definition significant_drop :: "rat \<Rightarrow> bool" where
  "significant_drop d = (d > lit_0_2)"

text \<open>
  The analysis after the loop over the perturbation types: for every type but
  \<^verbatim>\<open>clean\<close>, the drop and whether the warning is printed. The results are kept in the
  order of insertion, as the dictionary keeps them.
\<close>

definition drop_analysis :: "(string \<times> group_result) list \<Rightarrow> (string \<times> rat \<times> bool) list" where
  "drop_analysis results =
     (case map_of results ''clean'' of
        None \<Rightarrow> []
      | Some clean \<Rightarrow>
          map (\<lambda>(ptype, result).
                 (ptype, perturbation_drop (accuracy clean) (accuracy result),
                  significant_drop (perturbation_drop (accuracy clean) (accuracy result))))
              (filter (\<lambda>(ptype, result). ptype \<noteq> ''clean'') results))"

text \<open>\<^verbatim>\<open>performance_drop\<close> of \<^verbatim>\<open>evaluate_counterfactual_with_large_model\<close>, as returned.\<close>

definition performance_drop :: "rat \<Rightarrow> rat \<Rightarrow> rat" where
  "performance_drop base10_acc base11_acc =
     (if base10_acc > 0 then fdiv (fsub base10_acc base11_acc) base10_acc else 0)"

section \<open>The style classifier\<close>

text \<open>\<^verbatim>\<open>LargeModelEvaluator._analyze_memory_reasoning_ratio(response)\<close>\<close>

definition memory_keywords :: "string list" where
  "memory_keywords =
     [''know'', ''fact'', ''established'', ''according to'', ''defined as'',
      ''historically'', ''traditionally'', ''documented'', ''recorded'',
      ''well-known'', ''commonly known'', ''recognized as'']"

definition reasoning_keywords :: "string list" where
  "reasoning_keywords =
     [''therefore'', ''thus'', ''because'', ''since'', ''consequently'',
      ''analyzing'', ''considering'', ''calculating'', ''reasoning'',
      ''implies'', ''suggests'', ''demonstrates'', ''proves'',
      ''step by step'', ''given that'', ''if we'', ''we can conclude'']"

definition sentences_of :: "string \<Rightarrow> string list" where
  "sentences_of response =
     map py_strip (filter (\<lambda>s. length (py_strip s) > 10) (py_split CHR ''.'' response))"

definition keyword_score :: "string list \<Rightarrow> string \<Rightarrow> nat" where
  "keyword_score keywords sentence_lower =
     length (filter (\<lambda>kw. py_in kw sentence_lower) keywords)"

fun classify_loop :: "string list \<Rightarrow> nat \<Rightarrow> nat \<Rightarrow> nat \<times> nat" where
  "classify_loop [] memory_count reasoning_count = (memory_count, reasoning_count)"
| "classify_loop (sentence # rest) memory_count reasoning_count =
     (let sentence_lower = py_lower sentence;
          memory_score = keyword_score memory_keywords sentence_lower;
          reasoning_score = keyword_score reasoning_keywords sentence_lower
      in if memory_score > reasoning_score
         then classify_loop rest (memory_count + 1) reasoning_count
         else if reasoning_score > memory_score
         then classify_loop rest memory_count (reasoning_count + 1)
         else classify_loop rest memory_count reasoning_count)"

definition analyze_memory_reasoning_ratio :: "string \<Rightarrow> rat" where
  "analyze_memory_reasoning_ratio response =
     (let sentences = sentences_of response
      in if sentences = [] then lit_0_5
         else let (memory_count, reasoning_count) = classify_loop sentences 0 0;
                  total_classified = memory_count + reasoning_count
              in if total_classified = 0 then lit_0_5
                 else fdiv (of_nat memory_count) (of_nat total_classified))"

text \<open>The labels of the specification: a unit leans to the side with more keywords.\<close>

definition memory_leaning :: "string \<Rightarrow> bool" where
  "memory_leaning unit =
     (keyword_score memory_keywords (py_lower unit)
        > keyword_score reasoning_keywords (py_lower unit))"

definition reasoning_leaning :: "string \<Rightarrow> bool" where
  "reasoning_leaning unit =
     (keyword_score reasoning_keywords (py_lower unit)
        > keyword_score memory_keywords (py_lower unit))"

text \<open>
  The classifier as the specification words it, for any set of separating characters:
  the pieces of the response between separators, each stripped, those longer than 10
  characters kept as units, and the ratio of the memory-leaning units among the
  classified ones. The source separates at the full stop; the sentence-terminal
  punctuation marks are the full stop, the exclamation mark and the question mark.
\<close>

fun split_acc :: "(char \<Rightarrow> bool) \<Rightarrow> string \<Rightarrow> string \<Rightarrow> string list" where
  "split_acc sep piece [] = [rev piece]"
| "split_acc sep piece (c # cs) =
     (if sep c then rev piece # split_acc sep [] cs else split_acc sep (c # piece) cs)"

definition spec_pieces :: "(char \<Rightarrow> bool) \<Rightarrow> string \<Rightarrow> string list" where
  "spec_pieces sep response = split_acc sep [] response"

definition spec_units :: "(char \<Rightarrow> bool) \<Rightarrow> string \<Rightarrow> string list" where
  "spec_units sep response =
     [py_strip piece. piece \<leftarrow> spec_pieces sep response, 10 < length (py_strip piece)]"

definition spec_ratio :: "(char \<Rightarrow> bool) \<Rightarrow> string \<Rightarrow> rat" where
  "spec_ratio sep response =
     (let units = spec_units sep response;
          m = length (filter memory_leaning units);
          r = length (filter reasoning_leaning units)
      in if m + r = 0 then 1 / 2 else fdiv (of_nat m) (of_nat (m + r)))"

definition full_stop :: "char \<Rightarrow> bool" where
  "full_stop c = (c = CHR ''.'')"

definition sentence_terminal :: "char \<Rightarrow> bool" where
  "sentence_terminal c = (c = CHR ''.'' \<or> c = CHR ''!'' \<or> c = CHR ''?'')"

text \<open>Pieces put together again, with a full stop between neighbours.\<close>

fun join_full_stop :: "string list \<Rightarrow> string" where
  "join_full_stop [] = []"
| "join_full_stop [w] = w"
| "join_full_stop (w # v # ws) = w @ CHR ''.'' # join_full_stop (v # ws)"

section \<open>Test cases of the source and sample runs\<close>

text \<open>
  The clean cases of the logic puzzles and the arithmetic problems of
  \<^verbatim>\<open>evaluate_counterfactual_with_large_model\<close>.
\<close>

definition clean_cases :: "kk_case list" where
  "clean_cases =
     [\<lparr>quiz = ''Zoey remarked, 'Oliver is not a knight'. Oliver stated, 'Oliver is a knight if and only if Zoey is a knave'. Who is a knight and who is a knave?'',
       expected = ''Zoey is a knave, Oliver is a knight''\<rparr>,
      \<lparr>quiz = ''William stated, 'If Evelyn is a knight then Evelyn is a knave'. Evelyn was heard saying, 'William is a knight and Evelyn is a knight'. Who is a knight and who is a knave?'',
       expected = ''William is a knight, Evelyn is a knave''\<rparr>]"

definition base10_problems :: "arith_problem list" where
  "base10_problems =
     [\<lparr>problem = ''What is 7 + 8?'', answer = IntAnswer 15\<rparr>,
      \<lparr>problem = ''What is 12 - 5?'', answer = IntAnswer 7\<rparr>,
      \<lparr>problem = ''What is 6 * 9?'', answer = IntAnswer 54\<rparr>,
      \<lparr>problem = ''What is 25 + 17?'', answer = IntAnswer 42\<rparr>,
      \<lparr>problem = ''What is 30 - 13?'', answer = IntAnswer 17\<rparr>]"

definition base11_problems :: "arith_problem list" where
  "base11_problems =
     [\<lparr>problem = ''What is 7 + 8 in base 11?'', answer = StrAnswer ''14''\<rparr>,
      \<lparr>problem = ''What is 12 - 5 in base 11?'', answer = StrAnswer ''7''\<rparr>,
      \<lparr>problem = ''What is 6 * 9 in base 11?'', answer = StrAnswer ''4A''\<rparr>,
      \<lparr>problem = ''What is 25 + 17 in base 11?'', answer = StrAnswer ''39''\<rparr>,
      \<lparr>problem = ''What is 30 - 13 in base 11?'', answer = StrAnswer ''16''\<rparr>]"

text \<open>
  A model that answers from a list of prepared replies, one per query; the list is the
  state of the backend.
\<close>

definition scripted_model :: "string list model_query" where
  "scripted_model prompt replies = (case replies of [] \<Rightarrow> ([], []) | r # rs \<Rightarrow> (r, rs))"

text \<open>
  The problem and the two responses of the specification's arithmetic example, and two
  responses for the style classifier.
\<close>

definition sum_problem :: arith_problem where
  "sum_problem = \<lparr>problem = ''What is 7 + 8?'', answer = IntAnswer 15\<rparr>"

definition sum_reply :: string where
  "sum_reply = ''Step by step: 7 + 8 = 15''"

definition wrong_reply :: string where
  "wrong_reply = ''The answer is 42''"

definition style_sample :: string where
  "style_sample = ''It is a well-known fact that Paris is the capital. Historically this was recorded in many books. Therefore we conclude it because of this. Hello there my friend. short.''"

definition exclaimed_sample :: string where
  "exclaimed_sample = ''I know it! Yes I do''"

definition neutral_sample :: string where
  "neutral_sample = ''Hello there my friend. The sky is quite blue today. ok.''"

text \<open>
  Backends: a request that times out, a response with status 503, a response with status
  200 whose body has no choices, a well-formed response, and a local pipeline that runs
  out of memory.
\<close>

definition timed_out :: "string \<Rightarrow> py_exception + http_response" where
  "timed_out prompt = Inl (RequestException ''Read timed out. (read timeout=30)'')"

definition service_unavailable :: "string \<Rightarrow> py_exception + http_response" where
  "service_unavailable prompt = Inr \<lparr>status_code = 503, json_body = Inl (JSONDecodeError ''Expecting value'')\<rparr>"

definition empty_choices :: "string \<Rightarrow> py_exception + http_response" where
  "empty_choices prompt =
     Inr \<lparr>status_code = 200, json_body = Inr (JObject [(''choices'', JArray [])])\<rparr>"

definition well_formed :: "string \<Rightarrow> py_exception + http_response" where
  "well_formed prompt =
     Inr \<lparr>status_code = 200,
          json_body = Inr (JObject [(''choices'',
            JArray [JObject [(''message'', JObject [(''content'', JString '' 15 '')])]])])\<rparr>"

definition failing_pipeline :: "string list \<Rightarrow> py_exception + string list" where
  "failing_pipeline prompts = Inl (RuntimeError ''CUDA out of memory'')"

section \<open>Properties of the string operations\<close>

lemma py_in_iff_sublist: "py_in p s \<longleftrightarrow> sublist p s"
  by (induction s) (auto simp: sublist_Cons_right)

lemma py_lower_append: "py_lower (a @ b) = py_lower a @ py_lower b"
  by (simp add: py_lower_def)

lemma py_in_lower_middle:
  assumes "py_in p (py_lower m)"
  shows "py_in p (py_lower (a @ m @ b))"
proof -
  from assms obtain u v where "py_lower m = u @ p @ v"
    by (auto simp: py_in_iff_sublist sublist_def)
  then have "py_lower (a @ m @ b) = (py_lower a @ u) @ p @ (v @ py_lower b)"
    by (simp add: py_lower_append)
  then show ?thesis
    unfolding py_in_iff_sublist sublist_def by blast
qed

lemma find_from_shift: "find_from p s i = (if py_in p s then i + find_from p s 0 else - 1)"
proof (induction s arbitrary: i)
  case Nil
  show ?case by simp
next
  case (Cons c cs)
  show ?case
    using Cons.IH [of "i + 1"] Cons.IH [of 1] by auto
qed


lemma find_from_first:
  "py_in p s \<Longrightarrow> \<exists>k\<le>length s. find_from p s 0 = int k \<and> from_first p s = drop k s"
proof (induction s)
  case Nil
  then show ?case by simp
next
  case (Cons c cs)
  show ?case
  proof (cases "prefix p (c # cs)")
    case True
    then show ?thesis by (intro exI [of _ 0]) simp
  next
    case False
    with Cons.prems have "py_in p cs" by simp
    from Cons.IH [OF this] obtain k where k: "k \<le> length cs" "find_from p cs 0 = int k"
      "from_first p cs = drop k cs" by blast
    have "find_from p (c # cs) 0 = int (Suc k)"
      using False k(2) \<open>py_in p cs\<close> find_from_shift [of p cs 1] by simp
    with False k show ?thesis by (intro exI [of _ "Suc k"]) simp
  qed
qed

lemma name_window_eq:
  assumes "py_in name el"
  shows "name_window el name = take 50 (from_first name el)"
proof -
  from find_from_first [OF assms] obtain k where k: "k \<le> length el"
    "find_from name el 0 = int k" "from_first name el = drop k el" by blast
  have n: "nat (int k + 50) = k + 50" by simp
  have "py_slice el (int k) (int k + 50) = take 50 (drop k el)"
    using k(1) unfolding py_slice_def slice_index_def Let_def n
    by (simp add: min_def)
  then show ?thesis
    by (simp add: name_window_def py_find_def k)
qed

lemma spec_pair_eq:
  "spec_pair el name =
     (if py_in name el then
        (if py_in ''knight'' (name_window el name) then Some (name, ''knight'')
         else if py_in ''knave'' (name_window el name) then Some (name, ''knave'')
         else None)
      else None)"
  by (simp add: spec_pair_def spec_role_def spec_window_def name_window_eq py_in_iff_sublist)

lemma extract_pairs_eq:
  "extract_pairs el ns acc = acc @ List.map_filter (spec_pair el) ns"
  by (induction ns arbitrary: acc) (simp_all add: List.map_filter_simps spec_pair_eq)

lemma expected_pairs_of_eq: "expected_pairs_of e = spec_pairs e"
  by (simp add: expected_pairs_of_def spec_pairs_def extract_pairs_eq)

lemma count_matches_eq:
  "count_matches rl ps k = k + length (filter (\<lambda>(n, r). py_in n rl \<and> py_in r rl) ps)"
  by (induction rl ps k rule: count_matches.induct) simp_all

lemma length_map_filter_le: "length (List.map_filter f xs) \<le> length xs"
  by (simp add: List.map_filter_def)

lemma length_expected_pairs_of: "length (expected_pairs_of e) \<le> 6"
  using length_map_filter_le [of "spec_pair (py_lower e)" names]
  by (simp add: expected_pairs_of_eq spec_pairs_def names_def)

lemma from_first_first:
  "py_in p s \<Longrightarrow> \<exists>k\<le>length s. from_first p s = drop k s \<and> prefix p (drop k s) \<and>
     (\<forall>j<k. \<not> prefix p (drop j s))"
proof (induction s)
  case Nil
  then show ?case by simp
next
  case (Cons c cs)
  show ?case
  proof (cases "prefix p (c # cs)")
    case True
    then show ?thesis by (intro exI [of _ 0]) simp
  next
    case False
    with Cons.prems have "py_in p cs" by simp
    from Cons.IH [OF this] obtain k where k: "k \<le> length cs" "from_first p cs = drop k cs"
      "prefix p (drop k cs)" "\<forall>j<k. \<not> prefix p (drop j cs)" by blast
    have "\<forall>j<Suc k. \<not> prefix p (drop j (c # cs))"
    proof (intro allI impI)
      fix j assume "j < Suc k"
      then show "\<not> prefix p (drop j (c # cs))"
        using False k(4) by (cases j) auto
    qed
    with False k show ?thesis by (intro exI [of _ "Suc k"]) simp
  qed
qed

lemma lit_0_8_value: "lit_0_8 = 3602879701896397 / 4503599627370496"
  unfolding lit_0_8_def by code_simp

lemma threshold_values:
  "fmul 0 lit_0_8 = 0"
  "fmul 1 lit_0_8 = 3602879701896397 / 4503599627370496"
  "fmul 2 lit_0_8 = 3602879701896397 / 2251799813685248"
  "fmul 3 lit_0_8 = 1351079888211149 / 562949953421312"
  "fmul 4 lit_0_8 = 3602879701896397 / 1125899906842624"
  "fmul 5 lit_0_8 = 4"
  "fmul 6 lit_0_8 = 1351079888211149 / 281474976710656"
  unfolding lit_0_8_def by code_simp+

lemma rat_le_nat_iff:
  assumes "of_nat m - 1 < q" "q \<le> of_nat m"
  shows "q \<le> (of_nat k :: rat) \<longleftrightarrow> m \<le> k"
proof
  assume "q \<le> of_nat k"
  with assms(1) have "(of_nat m :: rat) < of_nat k + 1" by linarith
  then have "(of_nat m :: rat) < of_nat (k + 1)" by simp
  then have "m < k + 1" unfolding of_nat_less_iff .
  then show "m \<le> k" by simp
next
  assume "m \<le> k"
  then have "(of_nat m :: rat) \<le> of_nat k" by simp
  with assms(2) show "q \<le> of_nat k" by linarith
qed

lemma threshold_iff:
  assumes "n \<le> 6"
  shows "fmul (of_nat n) lit_0_8 \<le> of_nat k \<longleftrightarrow> 4 * n \<le> 5 * k"
proof -
  from assms consider "n = 0" | "n = 1" | "n = 2" | "n = 3" | "n = 4" | "n = 5" | "n = 6"
    by linarith
  then show ?thesis
  proof cases
    case 1 then show ?thesis by (simp add: threshold_values)
  next
    case 2
    have "fmul 1 lit_0_8 \<le> of_nat k \<longleftrightarrow> 1 \<le> k"
      by (rule rat_le_nat_iff) (simp_all add: threshold_values)
    then show ?thesis using 2 by auto
  next
    case 3
    have "fmul 2 lit_0_8 \<le> of_nat k \<longleftrightarrow> 2 \<le> k"
      by (rule rat_le_nat_iff) (simp_all add: threshold_values)
    then show ?thesis using 3 by auto
  next
    case 4
    have "fmul 3 lit_0_8 \<le> of_nat k \<longleftrightarrow> 3 \<le> k"
      by (rule rat_le_nat_iff) (simp_all add: threshold_values)
    then show ?thesis using 4 by auto
  next
    case 5
    have "fmul 4 lit_0_8 \<le> of_nat k \<longleftrightarrow> 4 \<le> k"
      by (rule rat_le_nat_iff) (simp_all add: threshold_values)
    then show ?thesis using 5 by auto
  next
    case 6
    have "fmul 5 lit_0_8 \<le> of_nat k \<longleftrightarrow> 4 \<le> k"
      by (rule rat_le_nat_iff) (simp_all add: threshold_values)
    then show ?thesis using 6 by auto
  next
    case 7
    have "fmul 6 lit_0_8 \<le> of_nat k \<longleftrightarrow> 5 \<le> k"
      by (rule rat_le_nat_iff) (simp_all add: threshold_values)
    then show ?thesis using 7 by auto
  qed
qed

section \<open>Properties of the logic-puzzle scorer\<close>

lemma check_logic_answer_iff:
  "check_logic_answer response expected_str \<longleftrightarrow>
     4 * length (spec_pairs expected_str)
       \<le> 5 * length (filter (spec_satisfied response) (spec_pairs expected_str))"
proof -
  have sat: "(\<lambda>(n, r). py_in n (py_lower response) \<and> py_in r (py_lower response))
      = spec_satisfied response"
    by (auto simp: spec_satisfied_def py_in_iff_sublist fun_eq_iff)
  have "length (spec_pairs expected_str) \<le> 6"
    using length_expected_pairs_of [of expected_str] by (simp add: expected_pairs_of_eq)
  then show ?thesis
    by (simp add: check_logic_answer_def Let_def expected_pairs_of_eq count_matches_eq sat
        threshold_iff)
qed

lemma spec_logic_correct_iff:
  "spec_logic_correct response expected_str \<longleftrightarrow>
     4 * length (spec_pairs expected_str)
       \<le> 5 * length (filter (spec_satisfied response) (spec_pairs expected_str))"
proof -
  have "(8 / 10) * rat_of_nat n \<le> rat_of_nat k \<longleftrightarrow> 4 * n \<le> 5 * k" for n k
  proof -
    have "(8 / 10) * rat_of_nat n \<le> rat_of_nat k \<longleftrightarrow> rat_of_nat (4 * n) \<le> rat_of_nat (5 * k)"
      by (simp add: field_simps)
    also have "\<dots> \<longleftrightarrow> 4 * n \<le> 5 * k"
      unfolding of_nat_le_iff ..
    finally show ?thesis .
  qed
  then show ?thesis
    by (simp add: spec_logic_correct_def Let_def)
qed

lemma zoey_pairs:
  "expected_pairs_of zoey_expected = [(''zoey'', ''knight''), (''oliver'', ''knight'')]"
  unfolding zoey_expected_def by code_simp

lemma full_answer_contains:
  "py_in ''zoey'' (py_lower full_answer)"
  "py_in ''oliver'' (py_lower full_answer)"
  "py_in ''knight'' (py_lower full_answer)"
  unfolding full_answer_def by code_simp+

lemma full_answer_correct:
  "check_logic_answer (pre @ full_answer @ post) zoey_expected"
proof -
  have "spec_pairs zoey_expected = [(''zoey'', ''knight''), (''oliver'', ''knight'')]"
    using zoey_pairs by (simp add: expected_pairs_of_eq)
  moreover have "spec_satisfied (pre @ full_answer @ post) (''zoey'', ''knight'')"
    "spec_satisfied (pre @ full_answer @ post) (''oliver'', ''knight'')"
    using full_answer_contains [THEN py_in_lower_middle, of pre post]
    by (simp_all add: spec_satisfied_def py_in_iff_sublist)
  ultimately show ?thesis
    by (simp add: check_logic_answer_iff)
qed

lemma partial_answer_incorrect:
  "\<not> check_logic_answer partial_answer zoey_expected"
  unfolding partial_answer_def zoey_expected_def by code_simp

text \<open>
  C1. The logic-puzzle scorer agrees, for every response and every expected_str answer,
  with the rule of the specification: the pairs are extracted through the 50-character
  window at the first occurrence of each known name, and the answer is correct exactly
  when the pairs whose name and role both occur in the lowercased response are at least
  0.8 times the extracted pairs. For the expected_str answer of Zoey and Oliver, every
  response that contains the two-line answer is correct, and the response that is only
  Zoey's clause is incorrect.
\<close>

theorem check_logic_answer_spec:
  "(check_logic_answer response expected_str \<longleftrightarrow> spec_logic_correct response expected_str)
   \<and> check_logic_answer (pre @ full_answer @ post) zoey_expected
   \<and> \<not> check_logic_answer partial_answer zoey_expected"
  using check_logic_answer_iff [of response expected_str]
    spec_logic_correct_iff [of response expected_str]
    full_answer_correct [of pre post] partial_answer_incorrect
  by simp

theorem check_logic_answer_spec_witness:
  "spec_logic_correct full_answer zoey_expected
   \<and> \<not> spec_logic_correct partial_answer zoey_expected"
  using check_logic_answer_spec [of full_answer zoey_expected "[]" "[]"]
    check_logic_answer_spec [of partial_answer zoey_expected "[]" "[]"]
  by simp

lemma map_filter_empty: "List.map_filter f xs = [] \<longleftrightarrow> (\<forall>x\<in>set xs. f x = None)"
  by (induction xs) (auto simp: List.map_filter_simps split: option.splits)

lemma spec_pair_none:
  "spec_pair el name = None \<longleftrightarrow>
     \<not> (sublist name el
        \<and> (sublist ''knight'' (spec_window el name) \<or> sublist ''knave'' (spec_window el name)))"
  by (simp add: spec_pair_def spec_role_def)

text \<open>
  C7. No pair is extracted from an expected answer exactly when no known name occurs in
  it with a role keyword in its window, and then the scorer returns true for every
  response: the threshold is 0 and no match is needed.
\<close>

theorem no_pairs_always_correct:
  "(expected_pairs_of expected_str = [] \<longleftrightarrow>
      (\<forall>name\<in>set names.
         \<not> (sublist name (py_lower expected_str)
            \<and> (sublist ''knight'' (spec_window (py_lower expected_str) name)
               \<or> sublist ''knave'' (spec_window (py_lower expected_str) name)))))
   \<and> (expected_pairs_of expected_str = [] \<longrightarrow> check_logic_answer response expected_str)"
proof -
  have "expected_pairs_of expected_str = [] \<longleftrightarrow>
      (\<forall>name\<in>set names. spec_pair (py_lower expected_str) name = None)"
    by (simp only: expected_pairs_of_eq spec_pairs_def map_filter_empty)
  moreover have "check_logic_answer response expected_str"
    if "expected_pairs_of expected_str = []"
    using that by (simp add: check_logic_answer_def fmul_def rd_def)
  ultimately show ?thesis
    by (simp only: spec_pair_none) blast
qed

theorem no_pairs_always_correct_witness:
  "expected_pairs_of ''Alice is a knight, Bob is a knave'' = []
   \<and> check_logic_answer ''I cannot tell'' ''Alice is a knight, Bob is a knave''"
proof -
  have h: "expected_pairs_of ''Alice is a knight, Bob is a knave'' = []"
    by code_simp
  show ?thesis
    using h no_pairs_always_correct
      [where expected_str = "''Alice is a knight, Bob is a knave''"
         and response = "''I cannot tell''"]
    by blast
qed

lemma set_map_filter: "set (List.map_filter f xs) = {y. \<exists>x\<in>set xs. f x = Some y}"
  by (induction xs) (auto simp: List.map_filter_simps split: option.splits)

text \<open>
  C10. The role test looks for the knight keyword first: when both role keywords occur
  in the window of a known name, the pair extracted for that name has the role knight,
  and no pair with the role knave is extracted for it. In the expected_str answer of Zoey
  and Oliver, which calls Zoey a knave, Oliver's clause lies in Zoey's window and the
  pair extracted for Zoey is knight.
\<close>

theorem knight_checked_first:
  "(name \<in> set names \<and> sublist name (py_lower expected_str)
      \<and> sublist ''knight'' (spec_window (py_lower expected_str) name)
      \<and> sublist ''knave'' (spec_window (py_lower expected_str) name)
    \<longrightarrow> (name, ''knight'') \<in> set (expected_pairs_of expected_str)
        \<and> (name, ''knave'') \<notin> set (expected_pairs_of expected_str))
   \<and> expected_pairs_of zoey_expected = [(''zoey'', ''knight''), (''oliver'', ''knight'')]"
proof -
  have fst_name: "spec_pair el n = Some (m, r) \<Longrightarrow> m = n" for el n m r
    by (auto simp: spec_pair_def split: if_splits)
  have general: "(name, ''knight'') \<in> set (expected_pairs_of expected_str)
        \<and> (name, ''knave'') \<notin> set (expected_pairs_of expected_str)"
    if h: "name \<in> set names" "sublist name (py_lower expected_str)"
      "sublist ''knight'' (spec_window (py_lower expected_str) name)"
  proof -
    have pk: "spec_pair (py_lower expected_str) name = Some (name, ''knight'')"
      using h(2,3) by (simp add: spec_pair_def spec_role_def)
    have "(name, ''knight'') \<in> set (spec_pairs expected_str)"
      unfolding spec_pairs_def set_map_filter using h(1) pk by blast
    moreover have "(name, ''knave'') \<notin> set (spec_pairs expected_str)"
    proof
      assume "(name, ''knave'') \<in> set (spec_pairs expected_str)"
      then obtain x where "spec_pair (py_lower expected_str) x = Some (name, ''knave'')"
        unfolding spec_pairs_def set_map_filter by blast
      moreover from this have "x = name" using fst_name by metis
      ultimately show False using pk by simp
    qed
    ultimately show ?thesis by (simp add: expected_pairs_of_eq)
  qed
  show ?thesis
    using general zoey_pairs by blast
qed

theorem knight_checked_first_witness:
  "''zoey'' \<in> set names \<and> sublist ''zoey'' (py_lower zoey_expected)
   \<and> sublist ''knight'' (spec_window (py_lower zoey_expected) ''zoey'')
   \<and> sublist ''knave'' (spec_window (py_lower zoey_expected) ''zoey'')
   \<and> (''zoey'', ''knight'') \<in> set (expected_pairs_of zoey_expected)
   \<and> (''zoey'', ''knave'') \<notin> set (expected_pairs_of zoey_expected)"
proof -
  have h: "''zoey'' \<in> set names" "sublist ''zoey'' (py_lower zoey_expected)"
    "sublist ''knight'' (spec_window (py_lower zoey_expected) ''zoey'')"
    "sublist ''knave'' (spec_window (py_lower zoey_expected) ''zoey'')"
    unfolding zoey_expected_def by code_simp+
  show ?thesis
    using h knight_checked_first [of "''zoey''" zoey_expected] by blast
qed

section \<open>Properties of the float operations\<close>

lemma bitlen_rat_bounds:
  assumes "0 < (p::int)"
  shows "\<exists>b. bitlen p = int (Suc b) \<and> (2::rat) ^ b \<le> of_int p \<and> of_int p < (2::rat) ^ Suc b"
proof -
  have "0 < floorlog 2 (nat p)"
    using assms by (simp add: floorlog_eq_zero_iff Suc_le_eq flip: neq0_conv)
  then obtain b where b: "floorlog 2 (nat p) = Suc b"
    by (cases "floorlog 2 (nat p)") auto
  then have bl: "bitlen p = int (Suc b)" by (simp add: bitlen_def)
  have n: "nat (int (Suc b) - 1) = b" "nat (int (Suc b)) = Suc b" by simp_all
  from bitlen_bounds [OF assms] have "2 ^ b \<le> p" "p < 2 ^ Suc b"
    unfolding bl n by blast+
  then have "(of_int (2 ^ b) :: rat) \<le> of_int p" "(of_int p :: rat) < of_int (2 ^ Suc b)"
    unfolding of_int_le_iff of_int_less_iff by simp_all
  then show ?thesis using bl by auto
qed

lemma binary_exponent_bounds:
  assumes "0 < x"
  shows "2 powi binary_exponent x \<le> x \<and> x < 2 powi (binary_exponent x + 1)"
proof -
  obtain p q where pq: "quotient_of x = (p, q)" by (cases "quotient_of x")
  have q: "0 < q" using quotient_of_denom_pos [OF pq] .
  have x: "x = of_int p / of_int q" using quotient_of_div [OF pq] .
  have p: "0 < p" using assms q unfolding x by (simp add: zero_less_divide_iff)
  from bitlen_rat_bounds [OF p] obtain bp where bp: "bitlen p = int (Suc bp)"
    "(2::rat) ^ bp \<le> of_int p" "of_int p < (2::rat) ^ Suc bp" by blast
  from bitlen_rat_bounds [OF q] obtain bq where bq: "bitlen q = int (Suc bq)"
    "(2::rat) ^ bq \<le> of_int q" "of_int q < (2::rat) ^ Suc bq" by blast
  define k where "k = int bp - int bq"
  have k: "bitlen p - bitlen q = k" by (simp add: bp bq k_def)
  have up: "x < 2 powi (k + 1)"
  proof -
    have "of_int p / of_int q < (2::rat) ^ Suc bp / 2 ^ bq"
      using bp(3) bq(2) p q by (intro frac_less) simp_all
    also have "\<dots> = 2 powi int (Suc bp) / 2 powi int bq"
      by (simp only: power_int_of_nat)
    also have "\<dots> = 2 powi (int (Suc bp) - int bq)"
      by (rule power_int_diff [symmetric]) simp
    also have "int (Suc bp) - int bq = k + 1" by (simp add: k_def)
    finally show ?thesis by (simp add: x)
  qed
  have lo: "2 powi (k - 1) < x"
  proof -
    have "k - 1 = int bp - int (Suc bq)" by (simp add: k_def)
    then have "(2::rat) powi (k - 1) = 2 powi (int bp - int (Suc bq))"
      by (rule arg_cong)
    also have "\<dots> = 2 powi int bp / 2 powi int (Suc bq)"
      by (rule power_int_diff) simp
    also have "\<dots> = 2 ^ bp / 2 ^ Suc bq"
      by (simp only: power_int_of_nat)
    also have "\<dots> < of_int p / of_int q"
      using bp(2) bq(3) q by (intro frac_less2) simp_all
    finally show ?thesis by (simp add: x)
  qed
  show ?thesis
  proof (cases "2 powi k \<le> x")
    case True
    then have "binary_exponent x = k" by (simp add: binary_exponent_def pq k)
    with True up show ?thesis by simp
  next
    case False
    then have "binary_exponent x = k - 1" by (simp add: binary_exponent_def pq k)
    with False lo show ?thesis by simp
  qed
qed

lemma round_half_even_bounds: "\<lfloor>y\<rfloor> \<le> round_half_even y \<and> round_half_even y \<le> \<lfloor>y\<rfloor> + 1"
  by (simp add: round_half_even_def Let_def)

lemma rd_of_pos:
  assumes "0 < x"
  shows "rd x = of_int (round_half_even (x / 2 powi (binary_exponent x - 52)))
                  * 2 powi (binary_exponent x - 52)"
  using assms by (simp add: rd_def Let_def)

lemma rd_minus: "rd (- x) = - rd x"
  by (simp add: rd_def Let_def)

lemma rd_pos:
  assumes "0 < x"
  shows "0 < rd x"
proof -
  define e where "e = binary_exponent x"
  define u :: rat where "u = 2 powi (e - 52)"
  have u: "0 < u" by (simp add: u_def)
  have "2 powi e \<le> x" using binary_exponent_bounds [OF assms] by (simp add: e_def)
  then have "2 powi e / u \<le> x / u" using u by (simp add: divide_right_mono)
  moreover have "2 powi e / u = 2 ^ 52"
    unfolding u_def by (simp add: power_int_diff)
  ultimately have "(2::rat) ^ 52 \<le> x / u" by simp
  then have "(of_int (2 ^ 52) :: rat) \<le> x / u" by simp
  then have "2 ^ 52 \<le> \<lfloor>x / u\<rfloor>" unfolding le_floor_iff .
  moreover have "(0::int) < 2 ^ 52" by simp
  ultimately have "0 < round_half_even (x / u)"
    using round_half_even_bounds [of "x / u"] by linarith
  then show ?thesis
    using u unfolding rd_of_pos [OF assms] e_def [symmetric] u_def [symmetric] by simp
qed

lemma rd_neg: "x < 0 \<Longrightarrow> rd x < 0"
  using rd_pos [of "- x"] by (simp add: rd_minus)

lemma rd_one: "rd 1 = 1"
  by code_simp

lemma rd_le_one:
  assumes "0 < x" "x \<le> 1"
  shows "rd x \<le> 1"
proof (cases "x = 1")
  case True
  then show ?thesis by (simp add: rd_one)
next
  case False
  with assms have x1: "x < 1" by simp
  define e where "e = binary_exponent x"
  define u :: rat where "u = 2 powi (e - 52)"
  have u: "0 < u" by (simp add: u_def)
  have b: "2 powi e \<le> x" "x < 2 powi (e + 1)"
    using binary_exponent_bounds [OF assms(1)] by (simp_all add: e_def)
  have e: "e + 1 \<le> 0"
  proof (rule ccontr)
    assume "\<not> e + 1 \<le> 0"
    then have "0 \<le> e" by simp
    then have "(1::rat) \<le> 2 powi e" by (simp add: power_int_def)
    with b(1) x1 show False by simp
  qed
  have "x / u < 2 powi (e + 1) / u" using b(2) u by (simp add: divide_strict_right_mono)
  moreover have "2 powi (e + 1) / u = 2 ^ 53"
  proof -
    have "2 powi (e + 1) / u = (2::rat) powi ((e + 1) - (e - 52))"
      unfolding u_def by (subst power_int_diff) simp_all
    then show ?thesis by simp
  qed
  ultimately have "x / u < of_int (2 ^ 53)" by simp
  then have "\<lfloor>x / u\<rfloor> < 2 ^ 53" unfolding floor_less_iff .
  then have "round_half_even (x / u) \<le> 2 ^ 53"
    using round_half_even_bounds [of "x / u"] by linarith
  then have "(of_int (round_half_even (x / u)) :: rat) \<le> of_int (2 ^ 53)"
    unfolding of_int_le_iff .
  then have "of_int (round_half_even (x / u)) * u \<le> 2 ^ 53 * u"
    using u by (simp add: mult_right_mono)
  moreover have "2 ^ 53 * u = 2 powi (e + 1)"
  proof -
    have "(2::rat) powi (53 + (e - 52)) = 2 powi 53 * 2 powi (e - 52)"
      by (subst power_int_add) simp_all
    then show ?thesis by (simp add: u_def add.commute)
  qed
  moreover have "(2::rat) powi (e + 1) \<le> 1"
    using e by (simp add: power_int_def inverse_eq_divide field_simps one_le_power)
  ultimately show ?thesis
    unfolding rd_of_pos [OF assms(1)] e_def [symmetric] u_def [symmetric] by linarith
qed

lemma fdiv_count_bounds:
  assumes "c \<le> t"
  shows "0 \<le> fdiv (of_nat c) (of_nat t) \<and> fdiv (of_nat c) (of_nat t) \<le> 1"
proof (cases "c = 0 \<or> t = 0")
  case True
  then show ?thesis by (auto simp: fdiv_def rd_def)
next
  case False
  then have "0 < rat_of_nat c / rat_of_nat t" by simp
  moreover have "rat_of_nat c / rat_of_nat t \<le> 1" using assms False by simp
  ultimately show ?thesis
    using rd_pos [of "rat_of_nat c / rat_of_nat t"] rd_le_one [of "rat_of_nat c / rat_of_nat t"]
    by (simp add: fdiv_def)
qed

lemma lit_values:
  "lit_0_8 = 3602879701896397 / 4503599627370496"
  "lit_0_2 = 3602879701896397 / 18014398509481984"
  "lit_0_5 = 1 / 2"
  unfolding lit_0_8_def lit_0_2_def lit_0_5_def by code_simp+

lemma fdiv_4_5: "fdiv 4 5 = lit_0_8" "fdiv 1 2 = lit_0_5"
  unfolding lit_0_8_def lit_0_5_def by code_simp+

section \<open>Accuracy of a group\<close>

lemma cases_loop_count:
  "fst (cases_loop query cs n st) \<le> n + length cs \<and> n \<le> fst (cases_loop query cs n st)"
proof (induction cs arbitrary: n st)
  case Nil
  show ?case by simp
next
  case (Cons c cs)
  obtain response st' where q: "query (logic_prompt (quiz c)) st = (response, st')"
    by (cases "query (logic_prompt (quiz c)) st")
  show ?case
    using Cons.IH [of "n + 1" st'] Cons.IH [of n st'] by (auto simp: q)
qed

lemma problems_loop_count:
  "fst (problems_loop query ps n st) \<le> n + length ps \<and> n \<le> fst (problems_loop query ps n st)"
proof (induction ps arbitrary: n st)
  case Nil
  show ?case by simp
next
  case (Cons p ps)
  obtain response st' where q: "query (arithmetic_prompt (problem p)) st = (response, st')"
    by (cases "query (arithmetic_prompt (problem p)) st")
  show ?case
    using Cons.IH [of "n + 1" st'] Cons.IH [of n st'] by (auto simp: q)
qed

lemma accuracy_bounds:
  assumes "c \<le> t"
  shows "0 \<le> (if t > 0 then fdiv (rat_of_nat c) (rat_of_nat t) else 0)
    \<and> (if t > 0 then fdiv (rat_of_nat c) (rat_of_nat t) else 0) \<le> 1"
  using fdiv_count_bounds [OF assms] by simp

text \<open>
  C9. The accuracy of a group of scored cases is the quotient of the correct count by
  the total count when the group is not empty and 0 when it is empty; the correct count
  never exceeds the total count, and the accuracy lies between 0 and 1. This holds for a
  perturbation group of the logic puzzles and for a list of arithmetic problems, with
  any model behind the query. The quotient is Python's: the double nearest to the exact
  one.
\<close>

theorem accuracy_quotient_in_unit_interval:
  "(let r = fst (evaluate_group query cs st)
    in total r = length cs \<and> correct r \<le> total r
       \<and> (total r > 0 \<longrightarrow> accuracy r = fdiv (of_nat (correct r)) (of_nat (total r)))
       \<and> (total r = 0 \<longrightarrow> accuracy r = 0)
       \<and> 0 \<le> accuracy r \<and> accuracy r \<le> 1)
   \<and> (case fst (evaluate_problems aquery ps ast) of (n_correct, n_total, acc) \<Rightarrow>
         n_total = length ps \<and> n_correct \<le> n_total
         \<and> (n_total > 0 \<longrightarrow> acc = fdiv (of_nat n_correct) (of_nat n_total))
         \<and> (n_total = 0 \<longrightarrow> acc = 0)
         \<and> 0 \<le> acc \<and> acc \<le> 1)"
proof -
  obtain n st' where l: "cases_loop query cs 0 st = (n, st')"
    by (cases "cases_loop query cs 0 st")
  have n: "n \<le> length cs" using cases_loop_count [of query cs 0 st] by (simp add: l)
  obtain m ast' where al: "problems_loop aquery ps 0 ast = (m, ast')"
    by (cases "problems_loop aquery ps 0 ast")
  have m: "m \<le> length ps" using problems_loop_count [of aquery ps 0 ast] by (simp add: al)
  show ?thesis
    using n m accuracy_bounds [OF n] accuracy_bounds [OF m]
    by (simp add: evaluate_group_def evaluate_problems_def l al Let_def)
qed

theorem accuracy_quotient_in_unit_interval_witness:
  "(let r = fst (evaluate_group scripted_model clean_cases [full_answer, partial_answer])
    in 0 < total r \<and> correct r = 1 \<and> total r = 2 \<and> accuracy r = fdiv 1 2 \<and> accuracy r = 1 / 2)
   \<and> fst (evaluate_problems scripted_model [] []) = (0, 0, 0)"
proof -
  have e: "fst (evaluate_group scripted_model clean_cases [full_answer, partial_answer])
      = \<lparr>accuracy = 1 / 2, correct = 1, total = 2\<rparr>"
    by code_simp
  have p: "fst (evaluate_problems scripted_model [] []) = (0, 0, 0)"
    by code_simp
  have h: "fdiv 1 2 = 1 / 2" by code_simp
  show ?thesis
    using accuracy_quotient_in_unit_interval
      [where query = scripted_model and cs = clean_cases
         and st = "[full_answer, partial_answer]" and aquery = scripted_model
         and ps = "[]" and ast = "[]"]
      e p h
    by (simp add: Let_def)
qed

section \<open>The arithmetic scorer\<close>

lemma evaluate_problems_single:
  "fst (evaluate_problems query [p] st) =
     (if answer_found (answer p) (fst (query (arithmetic_prompt (problem p)) st))
      then (1, 1, fdiv 1 1) else (0, 1, fdiv 0 1))"
  by (cases "query (arithmetic_prompt (problem p)) st")
     (simp add: evaluate_problems_def)

lemma answer_found_examples:
  "answer_found (IntAnswer 15) sum_reply"
  "answer_found (StrAnswer ''15'') sum_reply"
  "\<not> answer_found (IntAnswer 15) wrong_reply"
  "\<not> answer_found (StrAnswer ''15'') wrong_reply"
  unfolding sum_reply_def wrong_reply_def by code_simp+

lemma problems_loop_filter:
  "fst (problems_loop query ps n st) =
     n + length (filter (\<lambda>(p, r). answer_found (answer p) r) (zip ps (responses_of query ps st)))"
proof (induction ps arbitrary: n st)
  case Nil
  show ?case by simp
next
  case (Cons p ps)
  obtain response st' where q: "query (arithmetic_prompt (problem p)) st = (response, st')"
    by (cases "query (arithmetic_prompt (problem p)) st")
  show ?case
    using Cons.IH [of "n + 1" st'] Cons.IH [of n st'] by (simp add: q)
qed

lemma evaluate_problems_count:
  "fst (fst (evaluate_problems query ps st)) =
     length (filter (\<lambda>(p, r). answer_found (answer p) r) (zip ps (responses_of query ps st)))"
proof -
  obtain n st' where l: "problems_loop query ps 0 st = (n, st')"
    by (cases "problems_loop query ps 0 st")
  have "fst (problems_loop query ps 0 st) = n" by (simp only: l fst_conv)
  then have "n = length (filter (\<lambda>(p, r). answer_found (answer p) r)
      (zip ps (responses_of query ps st)))"
    by (simp only: problems_loop_filter add_0)
  then show ?thesis by (simp add: evaluate_problems_def l Let_def)
qed

text \<open>
  C2. The arithmetic scorer counts a response as correct exactly when the string form
  of the expected answer, lowercased, occurs in the lowercased response: over any list
  of problems and any model the correct count is the number of problems whose response
  contains the answer in that sense, and for one problem it is 1 in that case and 0
  otherwise. With the expected answer 15, as the integer of the base-10 problems or as a
  string, the response \<open>Step by step: 7 + 8 = 15\<close> is correct and the response
  \<open>The answer is 42\<close> is not.
\<close>

theorem arithmetic_scorer_substring:
  "fst (fst (evaluate_problems query ps st)) =
     length (filter (\<lambda>(p, r). sublist (py_lower (py_str (answer p))) (py_lower r))
               (zip ps (responses_of query ps st)))
   \<and> fst (fst (evaluate_problems query [p] st)) =
     (if sublist (py_lower (py_str (answer p)))
           (py_lower (fst (query (arithmetic_prompt (problem p)) st)))
      then 1 else 0)
   \<and> answer_found (IntAnswer 15) sum_reply
   \<and> answer_found (StrAnswer ''15'') sum_reply
   \<and> \<not> answer_found (IntAnswer 15) wrong_reply
   \<and> \<not> answer_found (StrAnswer ''15'') wrong_reply"
proof -
  have g: "fst (fst (evaluate_problems query ps st)) =
     length (filter (\<lambda>(p, r). sublist (py_lower (py_str (answer p))) (py_lower r))
               (zip ps (responses_of query ps st)))"
    unfolding evaluate_problems_count answer_found_def py_in_iff_sublist ..
  have "fst (fst (evaluate_problems query [p] st)) =
     (if answer_found (answer p) (fst (query (arithmetic_prompt (problem p)) st))
      then 1 else 0)"
    unfolding evaluate_problems_single by simp
  then have "fst (fst (evaluate_problems query [p] st)) =
     (if sublist (py_lower (py_str (answer p)))
           (py_lower (fst (query (arithmetic_prompt (problem p)) st)))
      then 1 else 0)"
    unfolding answer_found_def py_in_iff_sublist .
  with g answer_found_examples show ?thesis by blast
qed

theorem arithmetic_scorer_substring_witness:
  "fst (evaluate_problems scripted_model [sum_problem] [sum_reply]) = (1, 1, 1)
   \<and> fst (evaluate_problems scripted_model [sum_problem] [wrong_reply]) = (0, 1, 0)
   \<and> sublist (py_lower (py_str (answer sum_problem)))
        (py_lower (fst (scripted_model (arithmetic_prompt (problem sum_problem)) [sum_reply])))"
proof -
  have a: "fst (evaluate_problems scripted_model [sum_problem] [sum_reply]) = (1, 1, 1)"
    unfolding sum_problem_def sum_reply_def by code_simp
  have b: "fst (evaluate_problems scripted_model [sum_problem] [wrong_reply]) = (0, 1, 0)"
    unfolding sum_problem_def wrong_reply_def by code_simp
  have "(1::nat) =
     (if sublist (py_lower (py_str (answer sum_problem)))
           (py_lower (fst (scripted_model (arithmetic_prompt (problem sum_problem)) [sum_reply])))
      then 1 else 0)"
    using arithmetic_scorer_substring
      [where query = scripted_model and p = sum_problem and st = "[sum_reply]"]
    unfolding a by simp
  then have "sublist (py_lower (py_str (answer sum_problem)))
        (py_lower (fst (scripted_model (arithmetic_prompt (problem sum_problem)) [sum_reply])))"
    by (simp split: if_splits)
  with a b show ?thesis by blast
qed

section \<open>Perturbation drop\<close>

lemma drop_0_8_0_5: "perturbation_drop lit_0_8 lit_0_5 = 3 / 8 + 1 / 2 ^ 54"
  unfolding lit_0_8_def lit_0_5_def by code_simp

text \<open>
  C4. For a positive baseline accuracy \<open>b\<close> the drop is the quotient
  \<open>(b - v) / b\<close> of double arithmetic, in the logic-puzzle analysis and in the
  counterfactual evaluation alike; for the baseline 0 the drop is 0, with no division;
  and for a variant accuracy above a positive baseline the drop is negative, not 0.
\<close>

theorem drop_formula:
  "(0 < b \<longrightarrow> perturbation_drop b v = fdiv (fsub b v) b
              \<and> performance_drop b v = fdiv (fsub b v) b)
   \<and> perturbation_drop 0 v = 0 \<and> performance_drop 0 v = 0
   \<and> (0 < b \<and> b < v \<longrightarrow> perturbation_drop b v < 0 \<and> performance_drop b v < 0)"
proof -
  have "fdiv (fsub b v) b < 0" if "0 < b" "b < v"
  proof -
    have "rd (b - v) < 0" using that by (intro rd_neg) simp
    then have "rd (b - v) / b < 0" using that(1) by (simp add: divide_neg_pos)
    then show ?thesis unfolding fdiv_def fsub_def by (rule rd_neg)
  qed
  then show ?thesis
    by (simp add: perturbation_drop_def performance_drop_def)
qed

theorem drop_formula_witness:
  "(0::rat) < 1 / 2 \<and> (1 / 2 :: rat) < 1 \<and> perturbation_drop (1 / 2) 1 = - 1
   \<and> perturbation_drop (1 / 2) 1 < 0"
proof -
  have v: "fdiv (fsub (1 / 2) 1) (1 / 2) = - 1" by code_simp
  show ?thesis
    using drop_formula [of "1 / 2" 1] v by simp
qed

text \<open>
  At the baseline 0 the guard of the source returns 0 whatever the variant accuracy is:
  there a variant accuracy above the baseline does not make the drop negative.
\<close>

theorem drop_zero_baseline_not_negative:
  "(0::rat) < 1 / 2 \<and> \<not> perturbation_drop 0 (1 / 2) < 0"
  by (simp add: perturbation_drop_def)

text \<open>
  C5. For the baseline accuracy 0.80 and the variant accuracy 0.50, as doubles (the
  literals, or the quotients 4/5 and 1/2 of counts), the computed drop is
  \<open>3/8 + 2\<^sup>-\<^sup>5\<^sup>4\<close>, which Python prints as 0.37500000000000006; the
  quotient of the exact fractions is 3/8. The drop exceeds the threshold 0.2, and the
  analysis flags the variant.
\<close>

theorem drop_0_8_0_5_flagged:
  "perturbation_drop lit_0_8 lit_0_5 = 3 / 8 + 1 / 2 ^ 54
   \<and> perturbation_drop (fdiv 4 5) (fdiv 1 2) = 3 / 8 + 1 / 2 ^ 54
   \<and> ((8 / 10 - 5 / 10) / (8 / 10) :: rat) = 3 / 8
   \<and> significant_drop (perturbation_drop lit_0_8 lit_0_5)
   \<and> drop_analysis
        [(''clean'', \<lparr>accuracy = lit_0_8, correct = 4, total = 5\<rparr>),
         (''flip_role'', \<lparr>accuracy = lit_0_5, correct = 1, total = 2\<rparr>)]
      = [(''flip_role'', 3 / 8 + 1 / 2 ^ 54, True)]"
proof -
  have s: "significant_drop (perturbation_drop lit_0_8 lit_0_5)"
    unfolding drop_0_8_0_5 significant_drop_def by (simp add: lit_values)
  then show ?thesis
    by (simp add: drop_analysis_def drop_0_8_0_5 fdiv_4_5)
qed

text \<open>
  The computed drop is not 0.375: the double 0.8 lies above 4/5, the subtraction
  \<open>0.8 - 0.5\<close> is exact, and the rounded quotient is one unit in the last place
  above 3/8.
\<close>

theorem drop_not_exactly_three_eighths:
  "perturbation_drop lit_0_8 lit_0_5 \<noteq> 3 / 8"
  unfolding drop_0_8_0_5 by simp

section \<open>The style classifier\<close>

lemma classify_loop_eq:
  "classify_loop ss m r =
     (m + length (filter memory_leaning ss), r + length (filter reasoning_leaning ss))"
  by (induction ss arbitrary: m r)
     (simp_all add: Let_def memory_leaning_def reasoning_leaning_def)

lemma py_split_no_sep: "w \<in> set (py_split sep s) \<Longrightarrow> sep \<notin> set w"
proof (induction s arbitrary: w)
  case Nil
  then show ?case by simp
next
  case (Cons c cs)
  then show ?case
    by (cases "py_split sep cs") (auto split: if_splits)
qed

lemma py_split_concat: "concat (map ((#) sep) (py_split sep s)) = sep # s"
proof (induction s)
  case Nil
  show ?case by simp
next
  case (Cons c cs)
  then show ?case
    by (cases "py_split sep cs") (auto split: if_splits)
qed

lemma set_py_strip: "set (py_strip s) \<subseteq> set s"
proof -
  have "set (py_strip s) \<subseteq> set (dropWhile is_space s)"
    unfolding py_strip_def using set_dropWhileD by fastforce
  also have "\<dots> \<subseteq> set s" using set_dropWhileD by fastforce
  finally show ?thesis .
qed

lemma sentences_of_units:
  assumes "u \<in> set (sentences_of response)"
  shows "10 < length u \<and> CHR ''.'' \<notin> set u"
proof -
  from assms obtain s where s: "s \<in> set (py_split CHR ''.'' response)" "10 < length (py_strip s)"
    "u = py_strip s" by (auto simp: sentences_of_def)
  have "CHR ''.'' \<notin> set s" using py_split_no_sep [OF s(1)] .
  then have "CHR ''.'' \<notin> set (py_strip s)" using set_py_strip [of s] by blast
  with s show ?thesis by simp
qed

lemma analyze_eq:
  "analyze_memory_reasoning_ratio response =
     (let m = length (filter memory_leaning (sentences_of response));
          r = length (filter reasoning_leaning (sentences_of response))
      in if m + r = 0 then 1 / 2 else fdiv (of_nat m) (of_nat (m + r)))"
  by (auto simp: analyze_memory_reasoning_ratio_def classify_loop_eq Let_def lit_values)

lemma analyze_range:
  "0 \<le> analyze_memory_reasoning_ratio response \<and> analyze_memory_reasoning_ratio response \<le> 1"
proof -
  define m where "m = length (filter memory_leaning (sentences_of response))"
  define r where "r = length (filter reasoning_leaning (sentences_of response))"
  have "m \<le> m + r" by simp
  from fdiv_count_bounds [OF this] show ?thesis
    unfolding analyze_eq m_def [symmetric] r_def [symmetric] by (simp add: Let_def)
qed

lemma py_split_nonempty: "py_split sep s \<noteq> []"
  by (cases s) (auto split: list.splits)

lemma split_acc_py_split:
  "split_acc (\<lambda>c. c = sep) piece s =
     (rev piece @ hd (py_split sep s)) # tl (py_split sep s)"
proof (induction s arbitrary: piece)
  case Nil
  show ?case by simp
next
  case (Cons c cs)
  show ?case
  proof (cases "c = sep")
    case True
    then show ?thesis using Cons.IH [of "[]"] py_split_nonempty [of sep cs] by simp
  next
    case False
    then show ?thesis
      using Cons.IH [of "c # piece"] py_split_nonempty [of sep cs]
      by (cases "py_split sep cs") simp_all
  qed
qed

lemma spec_pieces_full_stop: "spec_pieces full_stop response = py_split CHR ''.'' response"
proof -
  have "full_stop = (\<lambda>c. c = CHR ''.'')" by (simp add: full_stop_def fun_eq_iff)
  then show ?thesis
    using split_acc_py_split [of "CHR ''.''" "[]" response] py_split_nonempty [of "CHR ''.''" response]
    by (simp add: spec_pieces_def)
qed

lemma comprehension_map_filter: "[f x. x \<leftarrow> xs, P x] = map f (filter P xs)"
  by (induction xs) simp_all

lemma spec_units_full_stop: "spec_units full_stop response = sentences_of response"
  by (simp only: spec_units_def sentences_of_def spec_pieces_full_stop
      comprehension_map_filter)

lemma join_py_split: "join_full_stop (py_split CHR ''.'' s) = s"
proof (induction s)
  case Nil
  show ?case by simp
next
  case (Cons c cs)
  obtain w ws where p: "py_split CHR ''.'' cs = w # ws"
    using py_split_nonempty [of "CHR ''.''" cs] by (cases "py_split CHR ''.'' cs") auto
  show ?case
    using Cons.IH by (cases ws) (auto simp: p)
qed

lemma py_split_no_dot: "CHR ''.'' \<notin> set w \<Longrightarrow> py_split CHR ''.'' w = [w]"
  by (induction w) auto

lemma py_split_piece_then:
  "CHR ''.'' \<notin> set w \<Longrightarrow> py_split CHR ''.'' (w @ CHR ''.'' # s) = w # py_split CHR ''.'' s"
  by (induction w) auto

lemma pieces_unique:
  assumes "pieces \<noteq> []" "\<forall>w\<in>set pieces. CHR ''.'' \<notin> set w"
  shows "py_split CHR ''.'' (join_full_stop pieces) = pieces"
  using assms
proof (induction pieces rule: join_full_stop.induct)
  case 1
  then show ?case by simp
next
  case (2 w)
  then show ?case by (simp add: py_split_no_dot)
next
  case (3 w v ws)
  then show ?case by (simp add: py_split_piece_then)
qed


lemma units_of_any_pieces:
  assumes "pieces \<noteq> []" "\<forall>w\<in>set pieces. CHR ''.'' \<notin> set w"
    "join_full_stop pieces = response"
  shows "sentences_of response = [py_strip w. w \<leftarrow> pieces, 10 < length (py_strip w)]"
proof -
  have "py_split CHR ''.'' response = pieces"
    using pieces_unique [OF assms(1,2)] assms(3) by simp
  then show ?thesis
    by (simp only: sentences_of_def comprehension_map_filter)
qed

lemma analyze_spec_ratio:
  "analyze_memory_reasoning_ratio response = spec_ratio full_stop response"
  by (simp only: analyze_eq spec_ratio_def spec_units_full_stop Let_def)

text \<open>
  C3. The classifier cuts the response at the full stop and at no other punctuation
  mark: the units are those of the specification's rule with the full stop as the only
  separator, and however the response is cut into pieces without a full stop that join
  back to it, the units are the stripped pieces longer than 10 characters, in order. With
  \<open>m\<close> the number of units whose memory-keyword count exceeds their
  reasoning-keyword count and \<open>r\<close> the number of units for which the reverse holds
  (a tied unit is in neither), the ratio is \<open>m / (m + r)\<close> whenever a unit is
  classified, and the ratio always lies between 0 and 1.
\<close>

theorem style_ratio_of_counts:
  "sentences_of response = spec_units full_stop response
   \<and> (pieces \<noteq> [] \<and> (\<forall>w\<in>set pieces. CHR ''.'' \<notin> set w)
        \<and> join_full_stop pieces = response
      \<longrightarrow> sentences_of response = [py_strip w. w \<leftarrow> pieces, 10 < length (py_strip w)])
   \<and> analyze_memory_reasoning_ratio response = spec_ratio full_stop response
   \<and> (let units = sentences_of response;
           m = length (filter memory_leaning units);
           r = length (filter reasoning_leaning units)
       in (\<forall>u\<in>set units. 10 < length u \<and> CHR ''.'' \<notin> set u)
          \<and> (0 < m + r \<longrightarrow>
                analyze_memory_reasoning_ratio response = fdiv (of_nat m) (of_nat (m + r))))
   \<and> 0 \<le> analyze_memory_reasoning_ratio response
   \<and> analyze_memory_reasoning_ratio response \<le> 1"
proof -
  have a: "sentences_of response = spec_units full_stop response"
    by (simp only: spec_units_full_stop)
  have b: "pieces \<noteq> [] \<and> (\<forall>w\<in>set pieces. CHR ''.'' \<notin> set w)
        \<and> join_full_stop pieces = response
      \<longrightarrow> sentences_of response = [py_strip w. w \<leftarrow> pieces, 10 < length (py_strip w)]"
    using units_of_any_pieces [of pieces response] by blast
  have c: "let units = sentences_of response;
           m = length (filter memory_leaning units);
           r = length (filter reasoning_leaning units)
       in (\<forall>u\<in>set units. 10 < length u \<and> CHR ''.'' \<notin> set u)
          \<and> (0 < m + r \<longrightarrow>
                analyze_memory_reasoning_ratio response = fdiv (of_nat m) (of_nat (m + r)))"
    using sentences_of_units [of _ response] by (auto simp: Let_def analyze_eq)
  from a b c analyze_spec_ratio [of response] analyze_range [of response]
  show ?thesis by blast
qed

theorem style_ratio_of_counts_witness:
  "length (filter memory_leaning (sentences_of style_sample)) = 2
   \<and> length (filter reasoning_leaning (sentences_of style_sample)) = 1
   \<and> length (sentences_of style_sample) = 4
   \<and> analyze_memory_reasoning_ratio style_sample = fdiv 2 3
   \<and> sentences_of exclaimed_sample = [exclaimed_sample]"
proof -
  have m: "length (filter memory_leaning (sentences_of style_sample)) = 2"
    by code_simp
  have r: "length (filter reasoning_leaning (sentences_of style_sample)) = 1"
    by code_simp
  have u: "length (sentences_of style_sample) = 4"
    by code_simp
  have t: "analyze_memory_reasoning_ratio style_sample = fdiv 2 3"
    using style_ratio_of_counts [of style_sample "[]"] unfolding Let_def m r by simp
  have p: "[exclaimed_sample] \<noteq> [] \<and> (\<forall>w\<in>set [exclaimed_sample]. CHR ''.'' \<notin> set w)
      \<and> join_full_stop [exclaimed_sample] = exclaimed_sample"
    unfolding exclaimed_sample_def by code_simp
  have s: "[py_strip w. w \<leftarrow> [exclaimed_sample], 10 < length (py_strip w)] = [exclaimed_sample]"
    unfolding exclaimed_sample_def by code_simp
  have "sentences_of exclaimed_sample
      = [py_strip w. w \<leftarrow> [exclaimed_sample], 10 < length (py_strip w)]"
    using style_ratio_of_counts [of exclaimed_sample "[exclaimed_sample]",
        THEN conjunct2, THEN conjunct1] p
    by (rule mp)
  then have e: "sentences_of exclaimed_sample = [exclaimed_sample]"
    unfolding s .
  from m r u t e show ?thesis by blast
qed

text \<open>
  An exclamation mark ends no unit. With every sentence-terminal mark as a separator,
  the sample has two pieces of at most 10 characters, no unit and the ratio 0.5; the
  source keeps the whole sample as one memory-leaning unit and returns 1.
\<close>

theorem exclamation_mark_does_not_split:
  "sentences_of exclaimed_sample = [exclaimed_sample]
   \<and> spec_units sentence_terminal exclaimed_sample = []
   \<and> analyze_memory_reasoning_ratio exclaimed_sample = 1
   \<and> spec_ratio sentence_terminal exclaimed_sample = 1 / 2"
  unfolding exclaimed_sample_def by code_simp

text \<open>
  C8. When no unit of the response is memory-leaning or reasoning-leaning, which
  includes a response with no unit at all, the ratio is exactly 0.5.
\<close>

theorem unclassified_gives_half:
  "(\<forall>u\<in>set (sentences_of response). \<not> memory_leaning u \<and> \<not> reasoning_leaning u)
   \<Longrightarrow> analyze_memory_reasoning_ratio response = 1 / 2"
proof -
  assume h: "\<forall>u\<in>set (sentences_of response). \<not> memory_leaning u \<and> \<not> reasoning_leaning u"
  then have "filter memory_leaning (sentences_of response) = []"
    "filter reasoning_leaning (sentences_of response) = []"
    by (simp_all add: filter_empty_conv)
  then show ?thesis by (simp add: analyze_eq)
qed

theorem unclassified_gives_half_witness:
  "filter memory_leaning (sentences_of neutral_sample) = []
   \<and> filter reasoning_leaning (sentences_of neutral_sample) = []
   \<and> sentences_of neutral_sample \<noteq> []
   \<and> analyze_memory_reasoning_ratio neutral_sample = 1 / 2
   \<and> analyze_memory_reasoning_ratio [] = 1 / 2"
proof -
  have h: "\<forall>u\<in>set (sentences_of neutral_sample). \<not> memory_leaning u \<and> \<not> reasoning_leaning u"
    by code_simp
  have n: "sentences_of neutral_sample \<noteq> []" by code_simp
  have e: "\<forall>u\<in>set (sentences_of []). \<not> memory_leaning u \<and> \<not> reasoning_leaning u"
    by code_simp
  show ?thesis
    using h n unclassified_gives_half [OF h] unclassified_gives_half [OF e]
    by (simp add: filter_empty_conv)
qed

section \<open>Model clients\<close>

lemma sentinel_form_append: "sentinel_form (kind @ '' Error: '' @ detail)"
  unfolding sentinel_form_def py_in_iff_sublist sublist_def by blast

lemma sentinel_forms:
  "sentinel_form (''Request Error: '' @ d)"
  "sentinel_form (''API Error: '' @ d)"
  "sentinel_form (''Ollama Error: '' @ d)"
  "sentinel_form (''Ollama Connection Error: '' @ d)"
  using sentinel_form_append [of "''Request''" d] sentinel_form_append [of "''API''" d]
    sentinel_form_append [of "''Ollama''" d] sentinel_form_append [of "''Ollama Connection''" d]
  by simp_all

lemma try_except_returns:
  "(\<And>e. \<exists>v. handler e = Inr v) \<Longrightarrow> \<exists>v. try_except body handler = Inr v"
  by (cases body) (simp_all add: try_except_def)

lemma openai_query_returns: "\<exists>text. openai_query post prompt = Inr text"
  unfolding openai_query_def by (rule try_except_returns) simp

lemma ollama_query_returns: "\<exists>text. ollama_query post prompt = Inr text"
  unfolding ollama_query_def by (rule try_except_returns) simp

lemma local_generate_returns: "\<exists>out. local_generate pipeline prompt = Inr out"
  unfolding local_generate_def Let_def by (rule try_except_returns) simp

lemma openai_query_failure:
  "post prompt = Inl e \<Longrightarrow>
     openai_query post prompt = Inr (''Request Error: '' @ exception_text e)"
  "post prompt = Inr response \<Longrightarrow> status_code response \<noteq> 200 \<Longrightarrow>
     openai_query post prompt = Inr (''API Error: '' @ str_int (status_code response))"
  by (simp_all add: openai_query_def try_except_def and_then_def)

lemma ollama_query_failure:
  "post prompt = Inl e \<Longrightarrow>
     ollama_query post prompt = Inr (''Ollama Connection Error: '' @ exception_text e)"
  "post prompt = Inr response \<Longrightarrow> status_code response \<noteq> 200 \<Longrightarrow>
     ollama_query post prompt = Inr (''Ollama Error: '' @ str_int (status_code response))"
  by (simp_all add: ollama_query_def try_except_def and_then_def)

lemma local_generate_failure:
  "pipeline [p] = Inl e \<Longrightarrow> local_generate pipeline (Single p) = Inr (Single [])"
  "pipeline ps = Inl e \<Longrightarrow>
     local_generate pipeline (Batch ps) = Inr (Batch (replicate (length ps) []))"
  by (simp_all add: local_generate_def try_except_def and_then_def)

text \<open>
  C6. No query raises on a failure of the transport or of the backend, for any prompt.
  \<^verbatim>\<open>OpenAIModel.query\<close> and \<^verbatim>\<open>OllamaModel.query\<close> return a sentinel of the form
  \<open><Kind> Error: <detail>\<close>: \<open>Request Error\<close> and \<open>Ollama Connection Error\<close> with
  the text of the exception when the request raises, \<open>API Error\<close> and \<open>Ollama Error\<close>
  with the status code when the status is not 200. \<^verbatim>\<open>LocalLLM.generate\<close> catches a
  failure of its pipeline as well, and returns the empty string for one prompt and a
  list of empty strings for a batch.
\<close>

theorem model_queries_never_raise:
  "(\<exists>text. openai_query post prompt = Inr text)
   \<and> (\<exists>text. ollama_query post prompt = Inr text)
   \<and> (\<exists>out. local_generate pipeline prompts = Inr out)
   \<and> (post prompt = Inl e \<longrightarrow>
         openai_query post prompt = Inr (''Request Error: '' @ exception_text e)
         \<and> ollama_query post prompt = Inr (''Ollama Connection Error: '' @ exception_text e)
         \<and> sentinel_form (''Request Error: '' @ exception_text e)
         \<and> sentinel_form (''Ollama Connection Error: '' @ exception_text e))
   \<and> (post prompt = Inr response \<and> status_code response \<noteq> 200 \<longrightarrow>
         openai_query post prompt = Inr (''API Error: '' @ str_int (status_code response))
         \<and> ollama_query post prompt = Inr (''Ollama Error: '' @ str_int (status_code response))
         \<and> sentinel_form (''API Error: '' @ str_int (status_code response))
         \<and> sentinel_form (''Ollama Error: '' @ str_int (status_code response)))
   \<and> (pipeline [p] = Inl e' \<longrightarrow> local_generate pipeline (Single p) = Inr (Single []))
   \<and> (pipeline ps = Inl e' \<longrightarrow>
         local_generate pipeline (Batch ps) = Inr (Batch (replicate (length ps) [])))"
  using openai_query_returns [of post prompt] ollama_query_returns [of post prompt]
    local_generate_returns [of pipeline prompts]
    openai_query_failure (1) [of post prompt e] openai_query_failure (2) [of post prompt response]
    ollama_query_failure (1) [of post prompt e] ollama_query_failure (2) [of post prompt response]
    local_generate_failure (1) [of pipeline p e'] local_generate_failure (2) [of pipeline ps e']
    sentinel_forms
  by simp

theorem model_queries_never_raise_witness:
  "openai_query timed_out sum_reply = Inr ''Request Error: Read timed out. (read timeout=30)''
   \<and> ollama_query timed_out sum_reply
       = Inr ''Ollama Connection Error: Read timed out. (read timeout=30)''
   \<and> openai_query service_unavailable sum_reply = Inr ''API Error: 503''
   \<and> ollama_query service_unavailable sum_reply = Inr ''Ollama Error: 503''
   \<and> local_generate failing_pipeline (Batch [''What is 2+2?'', ''Why?'']) = Inr (Batch [[], []])"
proof -
  have t: "timed_out sum_reply = Inl (RequestException ''Read timed out. (read timeout=30)'')"
    by (simp add: timed_out_def)
  have s: "service_unavailable sum_reply
      = Inr \<lparr>status_code = 503, json_body = Inl (JSONDecodeError ''Expecting value'')\<rparr>
      \<and> status_code \<lparr>status_code = 503, json_body = Inl (JSONDecodeError ''Expecting value'')\<rparr>
          \<noteq> 200"
    by (simp add: service_unavailable_def)
  have n: "str_int 503 = ''503''" by code_simp
  have f: "failing_pipeline [''What is 2+2?'', ''Why?''] = Inl (RuntimeError ''CUDA out of memory'')"
    by (simp add: failing_pipeline_def)
  show ?thesis
    using model_queries_never_raise [where post = timed_out and prompt = sum_reply
        and e = "RequestException ''Read timed out. (read timeout=30)''"] t
      model_queries_never_raise [where post = service_unavailable and prompt = sum_reply
        and pipeline = failing_pipeline
        and response = "\<lparr>status_code = 503, json_body = Inl (JSONDecodeError ''Expecting value'')\<rparr>"
        and e' = "RuntimeError ''CUDA out of memory''"
        and ps = "[''What is 2+2?'', ''Why?'']"] s n f
    by simp
qed

lemma malformed_body_examples:
  "openai_query empty_choices sum_reply = Inr ''Request Error: list index out of range''"
  "openai_query well_formed sum_reply = Inr ''15''"
  "ollama_query well_formed sum_reply = Inr []"
  by code_simp+

text \<open>
  The result of \<^verbatim>\<open>LocalLLM.generate\<close> on a failure is the empty string, which is
  no sentinel of the form \<open><Kind> Error: <detail>\<close>.
\<close>

theorem local_generate_failure_not_sentinel:
  "local_generate failing_pipeline (Single ''What is 2+2?'') = Inr (Single [])
   \<and> \<not> sentinel_form []"
  by (simp add: local_generate_def failing_pipeline_def try_except_def and_then_def
      sentinel_form_def)

end
